theory Spec2Isabelle
  imports Main
begin

section \<open>The tour sequencer of \<^verbatim>\<open>src/hooks/useTour.ts\<close>\<close>

text \<open>
  The hook \<^verbatim>\<open>useTour\<close> keeps one \<^verbatim>\<open>TourState\<close> in React state and changes it
  through \<^verbatim>\<open>setTourState\<close>. Beside that state it reads and writes four things of the
  browser: \<^verbatim>\<open>window.location.pathname\<close>, \<^verbatim>\<open>Date.now()\<close>, \<^verbatim>\<open>localStorage\<close> and the
  timer queue of \<^verbatim>\<open>setTimeout\<close>. The model passes all of them explicitly in one record,
  \<open>World\<close>; every function of the hook is a function from worlds to worlds. Functional
  updates \<^verbatim>\<open>setTourState(prev => ...)\<close> are applied in the order in which they are
  queued, which is the order React applies them in.
\<close>

subsection \<open>Data\<close>

text \<open>
  A step of react-joyride with the fields \<^verbatim>\<open>INITIAL_STEPS\<close> uses. \<^verbatim>\<open>navigateTo\<close> is the
  hook's own addition; a field that a step does not carry (\<^verbatim>\<open>undefined\<close>) is \<open>None\<close>.
\<close>

record Step =
  target :: string
  content :: string
  placement :: string
  disableBeacon :: "bool option"
  navigateTo :: "string option"

record TourState =
  run :: bool
  steps :: "Step list"
  stepIndex :: int
  tourKey :: int

text \<open>
  The constants \<^verbatim>\<open>ACTIONS\<close>, \<^verbatim>\<open>EVENTS\<close> and \<^verbatim>\<open>STATUS\<close> are react-joyride's. The handler
  compares against \<^verbatim>\<open>PREV\<close>, \<^verbatim>\<open>CLOSE\<close>, \<^verbatim>\<open>FINISHED\<close>, \<^verbatim>\<open>SKIPPED\<close>, \<^verbatim>\<open>STEP_AFTER\<close>
  and \<^verbatim>\<open>TARGET_NOT_FOUND\<close> only; the other constructors stand for the values it lets
  fall through.
\<close>

datatype Action = INIT | START | STOP | RESET | PREV | NEXT | GO | CLOSE | SKIP | UPDATE

datatype Event = TOUR_START | STEP_BEFORE | BEACON | TOOLTIP | STEP_AFTER | TOUR_END
  | TOUR_STATUS | TARGET_NOT_FOUND | ERROR

datatype Status = IDLE | READY | WAITING | RUNNING | PAUSED | SKIPPED | FINISHED
  | STATUS_ERROR

text \<open>The four fields of \<^verbatim>\<open>CallBackProps\<close> that the handler destructures.\<close>

record CallBackProps =
  action :: Action
  index :: int
  status :: Status
  type :: Event

text \<open>
  The world of one mounted hook:
  \<^item> \<open>tour\<close>: the React state;
  \<^item> \<open>initialSteps\<close>: the argument \<^verbatim>\<open>useTour\<close> was called with;
  \<^item> \<open>pathname\<close>: \<^verbatim>\<open>window.location.pathname\<close>;
  \<^item> \<open>router\<close>: what react-router makes of a path: \<open>router cur path\<close> is the pathname
    that the location holds after \<^verbatim>\<open>navigate(path)\<close> was called at the pathname \<open>cur\<close> (a
    relative path is resolved, a query or hash is not part of the pathname). The router is
    not code of the hook, so it is a parameter of the world and the theorems hold for
    every router;
  \<^item> \<open>now\<close>: what \<^verbatim>\<open>Date.now()\<close> returns, in milliseconds;
  \<^item> \<open>localStorage\<close>, and \<open>setItem_log\<close>, the calls of \<^verbatim>\<open>localStorage.setItem\<close> in order;
  \<^item> \<open>navigate_log\<close>: the calls of \<^verbatim>\<open>navigate\<close> in order;
  \<^item> \<open>timers\<close>: the pending \<^verbatim>\<open>setTimeout\<close> callbacks, each by the time it is due. The
    hook schedules one callback only (the resume of \<^verbatim>\<open>handleNavigation\<close>) and always
    with the same delay, so the queue is first in, first out.
\<close>

record World =
  tour :: TourState
  initialSteps :: "Step list"
  pathname :: string
  router :: "string \<Rightarrow> string \<Rightarrow> string"
  now :: int
  localStorage :: "string \<rightharpoonup> string"
  setItem_log :: "(string \<times> string) list"
  navigate_log :: "string list"
  timers :: "int list"

definition mk_step :: "string \<Rightarrow> string \<Rightarrow> string \<Rightarrow> bool option \<Rightarrow> string option \<Rightarrow> Step" where
  "mk_step t c p b n =
     \<lparr>target = t, content = c, placement = p, disableBeacon = b, navigateTo = n\<rparr>"

definition INITIAL_STEPS :: "Step list" where
  \<open>INITIAL_STEPS =
    [mk_step ''[data-tour="navbar"]''
       ''This is the main navigation bar. You can use it to move between different sections of the application.''
       ''bottom'' (Some True) None,
     mk_step ''[data-tour="navbar-dashboard"]'' ''Click here to go to your Dashboard.''
       ''bottom'' None None,
     mk_step ''[data-tour="navbar-profile"]'' ''Click here to view your Profile.''
       ''bottom'' None None,
     mk_step ''[data-tour="navbar-settings"]'' ''Click here to manage your Settings.''
       ''bottom'' None None,
     mk_step ''[data-tour="dashboard-title"]''
       ''Welcome to the Dashboard! This is where you get an overview of your activities.''
       ''bottom'' None (Some ''/''),
     mk_step ''[data-tour="dashboard-content"]''
       ''This area shows key information and summaries.''
       ''top'' None None,
     mk_step ''[data-tour="profile-title"]'' ''This is your Profile page.''
       ''bottom'' None (Some ''/profile''),
     mk_step ''[data-tour="profile-content"]''
       ''Here you can view and edit your personal information.''
       ''top'' None None,
     mk_step ''[data-tour="settings-title"]'' ''This is the Settings page.''
       ''bottom'' None (Some ''/settings''),
     mk_step ''[data-tour="settings-content"]''
       ''Configure application preferences and settings here.''
       ''top'' None None,
     mk_step ''body''
       ''You have completed the tour! Feel free to explore the application.''
       ''center'' None (Some ''/'')]\<close>

subsection \<open>The browser\<close>

text \<open>
  \<^verbatim>\<open>localStorage.setItem(k, v)\<close>, taken to succeed (a full or disabled storage, where the
  call throws, is outside the model).
\<close>

definition setItem :: "string \<Rightarrow> string \<Rightarrow> World \<Rightarrow> World" where
  "setItem k v w =
     w\<lparr>localStorage := (localStorage w)(k \<mapsto> v), setItem_log := setItem_log w @ [(k, v)]\<rparr>"

text \<open>
  \<^verbatim>\<open>navigate(path)\<close> of react-router under a \<^verbatim>\<open>BrowserRouter\<close>: the history entry is
  pushed at once, so after the call \<^verbatim>\<open>window.location.pathname\<close> is what the router
  makes of the path.
\<close>

definition navigate :: "string \<Rightarrow> World \<Rightarrow> World" where
  "navigate path w =
     w\<lparr>pathname := router w (pathname w) path, navigate_log := navigate_log w @ [path]\<rparr>"

text \<open>\<^verbatim>\<open>setTimeout(callback, delay)\<close> for the one callback of the hook.\<close>

definition setTimeout :: "int \<Rightarrow> World \<Rightarrow> World" where
  "setTimeout delay w = w\<lparr>timers := timers w @ [now w + delay]\<rparr>"

text \<open>\<^verbatim>\<open>setTourState(prev => f(prev))\<close>.\<close>

definition setTourState :: "(TourState \<Rightarrow> TourState) \<Rightarrow> World \<Rightarrow> World" where
  "setTourState f w = w\<lparr>tour := f (tour w)\<rparr>"

text \<open>
  \<^verbatim>\<open>steps[stepIndex]\<close>: \<^verbatim>\<open>undefined\<close> outside the array (JavaScript does not raise),
  here \<open>None\<close>.
\<close>

definition step_at :: "Step list \<Rightarrow> int \<Rightarrow> Step option" where
  "step_at ss i = (if 0 \<le> i \<and> i < int (length ss) then Some (ss ! nat i) else None)"

subsection \<open>The hook\<close>

text \<open>The settle delay of \<^verbatim>\<open>handleNavigation\<close>, in milliseconds.\<close>

definition SETTLE_DELAY :: int where
  "SETTLE_DELAY = 500"

text \<open>The callback that \<^verbatim>\<open>handleNavigation\<close> hands to \<^verbatim>\<open>setTimeout\<close>.\<close>

definition resume :: "World \<Rightarrow> World" where
  "resume w = setTourState (\<lambda>prev. prev\<lparr>run := True, tourKey := now w\<rparr>) w"

definition handleNavigation :: "string \<Rightarrow> World \<Rightarrow> World" where
  "handleNavigation navigateToPath w =
     (if pathname w \<noteq> navigateToPath then
        setTimeout SETTLE_DELAY
          (navigate navigateToPath
             (setTourState (\<lambda>prev. prev\<lparr>run := False\<rparr>) w))
      else w)"

text \<open>
  The body of the navigation effect. \<^verbatim>\<open>currentStep.navigateTo\<close> is tested for
  truthiness: a missing path and the empty string both fail the test.
\<close>

definition navigation_effect :: "World \<Rightarrow> World" where
  "navigation_effect w =
     (if run (tour w) then
        (case step_at (steps (tour w)) (stepIndex (tour w)) of
           None \<Rightarrow> w
         | Some currentStep \<Rightarrow>
             (case navigateTo currentStep of
                None \<Rightarrow> w
              | Some p \<Rightarrow> if p \<noteq> [] then handleNavigation p w else w))
      else w)"

text \<open>
  \<^verbatim>\<open>startTour(startSteps = initialSteps)\<close>; \<open>None\<close> is the call without an argument.
  \<^verbatim>\<open>effectiveSteps[0]\<close> of an empty array would be \<^verbatim>\<open>undefined\<close> and reading its
  \<^verbatim>\<open>navigateTo\<close> would throw after the first state update; \<open>effectiveSteps\<close> is never
  empty (lemma \<open>effectiveSteps_nonempty\<close>), so that branch is dead.
\<close>

definition effectiveSteps :: "Step list option \<Rightarrow> World \<Rightarrow> Step list" where
  "effectiveSteps arg w =
     (let startSteps = (case arg of None \<Rightarrow> initialSteps w | Some ss \<Rightarrow> ss)
      in if length startSteps > 0 then startSteps else INITIAL_STEPS)"

definition startTour :: "Step list option \<Rightarrow> World \<Rightarrow> World" where
  "startTour arg w =
     (let es = effectiveSteps arg w;
          w1 = setTourState
                 (\<lambda>_. \<lparr>run = False, steps = es, stepIndex = 0, tourKey = now w\<rparr>) w;
          activate = setTourState (\<lambda>prev. prev\<lparr>run := True\<rparr>)
      in case es of
           [] \<Rightarrow> w1
         | firstStep # _ \<Rightarrow>
             (case navigateTo firstStep of
                None \<Rightarrow> activate w1
              | Some p \<Rightarrow>
                  if p \<noteq> [] \<and> pathname w1 \<noteq> p then handleNavigation p w1
                  else activate w1))"

definition handleJoyrideCallback :: "CallBackProps \<Rightarrow> World \<Rightarrow> World" where
  "handleJoyrideCallback data w =
     (if status data = FINISHED \<or> status data = SKIPPED then
        setItem ''tourViewed'' ''true''
          (setTourState (\<lambda>prev. prev\<lparr>run := False, stepIndex := 0\<rparr>) w)
      else if type data = STEP_AFTER \<or> type data = TARGET_NOT_FOUND then
        (let nextStepIndex = index data + (if action data = PREV then - 1 else 1)
         in if action data = CLOSE then
              setItem ''tourViewed'' ''true''
                (setTourState (\<lambda>prev. prev\<lparr>run := False\<rparr>) w)
            else
              setTourState (\<lambda>prev. prev\<lparr>stepIndex := nextStepIndex, run := True\<rparr>) w)
      else w)"

definition addSteps :: "Step list \<Rightarrow> World \<Rightarrow> World" where
  "addSteps newSteps w =
     setTourState (\<lambda>prev. prev\<lparr>steps := steps prev @ newSteps, tourKey := now w\<rparr>) w"

definition setRun :: "bool \<Rightarrow> World \<Rightarrow> World" where
  "setRun isRunning w = setTourState (\<lambda>prev. prev\<lparr>run := isRunning\<rparr>) w"

definition setSteps :: "Step list \<Rightarrow> World \<Rightarrow> World" where
  "setSteps newSteps w =
     setTourState (\<lambda>prev. prev\<lparr>steps := newSteps, tourKey := now w\<rparr>) w"

text \<open>
  \<^verbatim>\<open>useState\<close> at mount: the hook is given its steps, the page is at some path under
  some router, the clock reads \<open>t\<close> and \<^verbatim>\<open>localStorage\<close> holds what earlier visits left
  there.
\<close>

definition useTour ::
  "Step list \<Rightarrow> string \<Rightarrow> (string \<Rightarrow> string \<Rightarrow> string) \<Rightarrow> int \<Rightarrow> (string \<rightharpoonup> string) \<Rightarrow> World" where
  "useTour ss path rt t store =
     \<lparr>tour = \<lparr>run = False, steps = ss, stepIndex = 0, tourKey = t\<rparr>,
      initialSteps = ss, pathname = path, router = rt, now = t, localStorage = store,
      setItem_log = [], navigate_log = [], timers = []\<rparr>"

subsection \<open>The event loop\<close>

text \<open>
  What can happen to a mounted hook: a call of one of the functions it returns, a
  callback of react-joyride, the oldest pending timer coming due, and time passing.
  \<^verbatim>\<open>Date.now()\<close> changes only when time passes, and never backwards; two operations with
  no \<open>Elapse\<close> between them read the same millisecond.
\<close>

datatype Op =
    StartTour "Step list option"
  | Joyride CallBackProps
  | AddSteps "Step list"
  | SetSteps "Step list"
  | SetRun bool
  | TimerFires
  | Elapse nat

text \<open>
  A timer fires no earlier than it is due. When nothing is due, nothing happens.
\<close>

definition fire_timer :: "World \<Rightarrow> World" where
  "fire_timer w =
     (case timers w of
        [] \<Rightarrow> w
      | due # rest \<Rightarrow> if due \<le> now w then resume (w\<lparr>timers := rest\<rparr>) else w)"

definition elapse :: "nat \<Rightarrow> World \<Rightarrow> World" where
  "elapse d w = w\<lparr>now := now w + int d\<rparr>"

fun handler :: "Op \<Rightarrow> World \<Rightarrow> World" where
  "handler (StartTour arg) w = startTour arg w"
| "handler (Joyride data) w = handleJoyrideCallback data w"
| "handler (AddSteps newSteps) w = addSteps newSteps w"
| "handler (SetSteps newSteps) w = setSteps newSteps w"
| "handler (SetRun isRunning) w = setRun isRunning w"
| "handler TimerFires w = fire_timer w"
| "handler (Elapse d) w = elapse d w"

text \<open>
  The navigation effect has the dependencies \<^verbatim>\<open>[run, stepIndex, steps, handleNavigation]\<close>:
  React runs it after a render in which one of them differs from the render before.
  \<^verbatim>\<open>run\<close> and \<^verbatim>\<open>stepIndex\<close> are compared by value. \<^verbatim>\<open>steps\<close> is compared by identity:
  \<^verbatim>\<open>addSteps\<close> builds a new array with \<^verbatim>\<open>concat\<close> and \<^verbatim>\<open>setSteps\<close> is taken to be given
  one, so after these two the effect runs whatever the contents are. After \<^verbatim>\<open>startTour\<close>
  it makes no difference whether the effect runs (lemma \<open>navigation_effect_startTour\<close>).
\<close>

fun new_steps_array :: "Op \<Rightarrow> bool" where
  "new_steps_array (AddSteps _) = True"
| "new_steps_array (SetSteps _) = True"
| "new_steps_array _ = False"

definition deps_changed :: "TourState \<Rightarrow> TourState \<Rightarrow> bool" where
  "deps_changed old new =
     (run old \<noteq> run new \<or> stepIndex old \<noteq> stepIndex new \<or> steps old \<noteq> steps new)"

text \<open>
  One operation: the handler, then the render and, when a dependency changed, the
  effect. When the effect itself changes the state (it can only clear \<^verbatim>\<open>run\<close>), React
  renders and runs it once more; that second run does nothing
  (lemma \<open>navigation_effect_idem\<close>), so it is left out.
\<close>

definition apply_op :: "Op \<Rightarrow> World \<Rightarrow> World" where
  "apply_op e w =
     (let w' = handler e w
      in if new_steps_array e \<or> deps_changed (tour w) (tour w') then navigation_effect w'
         else w')"

fun apply_ops :: "Op list \<Rightarrow> World \<Rightarrow> World" where
  "apply_ops [] w = w"
| "apply_ops (e # es) w = apply_ops es (apply_op e w)"

subsection \<open>Predicates of the claims\<close>

text \<open>The step index points into the step list.\<close>

definition in_bounds :: "TourState \<Rightarrow> bool" where
  "in_bounds ts = (0 \<le> stepIndex ts \<and> stepIndex ts < int (length (steps ts)))"

text \<open>A callback that the handler answers by moving the step index.\<close>

definition advances :: "CallBackProps \<Rightarrow> bool" where
  "advances data =
     (status data \<noteq> FINISHED \<and> status data \<noteq> SKIPPED
      \<and> (type data = STEP_AFTER \<or> type data = TARGET_NOT_FOUND) \<and> action data \<noteq> CLOSE)"

text \<open>The operations that write \<^verbatim>\<open>tourKey\<close> in their own handler.\<close>

fun assigns_key :: "Op \<Rightarrow> bool" where
  "assigns_key (StartTour _) = True"
| "assigns_key (AddSteps _) = True"
| "assigns_key (SetSteps _) = True"
| "assigns_key _ = False"

subsection \<open>Concrete worlds\<close>

text \<open>
  The router of the concrete worlds. \<^verbatim>\<open>App.tsx\<close> routes the three absolute paths \<^verbatim>\<open>/\<close>,
  \<^verbatim>\<open>/profile\<close> and \<^verbatim>\<open>/settings\<close>; navigating to one of them leaves that path in the
  location. The worlds below navigate to no other path (there the location is left as it
  is, a choice that no theorem depends on).
\<close>

definition three_page_router :: "string \<Rightarrow> string \<Rightarrow> string" where
  "three_page_router cur path =
     (if path = ''/'' \<or> path = ''/profile'' \<or> path = ''/settings'' then path else cur)"

text \<open>
  The application of \<^verbatim>\<open>App.tsx\<close>: the default steps, mounted on the dashboard (\<^verbatim>\<open>/\<close>)
  at millisecond 1000 with an empty \<^verbatim>\<open>localStorage\<close>.
\<close>

definition dashboard_world :: World where
  "dashboard_world = useTour INITIAL_STEPS ''/'' three_page_router 1000 Map.empty"

text \<open>What react-joyride reports after the step at index \<open>i\<close> was left by action \<open>a\<close>.\<close>

definition step_after :: "Action \<Rightarrow> int \<Rightarrow> CallBackProps" where
  "step_after a i = \<lparr>action = a, index = i, status = RUNNING, type = STEP_AFTER\<rparr>"

text \<open>The default tour, started on the dashboard and advanced with Next to index 3 and 4.\<close>

definition dashboard_step3 :: World where
  "dashboard_step3 =
     apply_ops [StartTour None, Joyride (step_after NEXT 0), Joyride (step_after NEXT 1),
                Joyride (step_after NEXT 2)] dashboard_world"

definition dashboard_step4 :: World where
  "dashboard_step4 = apply_op (Joyride (step_after NEXT 3)) dashboard_step3"

text \<open>A tour of one step.\<close>

definition one_step :: "Step list" where
  "one_step = [mk_step ''body'' ''Welcome.'' ''center'' None None]"

text \<open>
  The default tour on the dashboard, right after the handler has moved it to index 6, the
  first step of the profile page, and before the navigation effect has run.
\<close>

definition profile_step_reached :: World where
  "profile_step_reached =
     handleJoyrideCallback (step_after NEXT 5)
       (apply_op (Joyride (step_after NEXT 4)) dashboard_step4)"

text \<open>A tour whose first step lives on the profile page.\<close>

definition profile_tour :: "Step list" where
  \<open>profile_tour =
     [mk_step ''[data-tour="profile-title"]'' ''This is your Profile page.'' ''bottom'' None
        (Some ''/profile'')]\<close>

text \<open>
  The same tour after the navigation effect has run: paused on the profile page, with
  the resume pending.
\<close>

definition profile_navigating :: World where
  "profile_navigating = navigation_effect profile_step_reached"

text \<open>A tour whose first step lives on the settings page.\<close>

definition settings_tour :: "Step list" where
  \<open>settings_tour =
     [mk_step ''[data-tour="settings-title"]'' ''This is the Settings page.'' ''bottom'' None
        (Some ''/settings'')]\<close>

section \<open>Properties\<close>

subsection \<open>Auxiliary facts\<close>

lemmas browser_defs = setTourState_def setItem_def navigate_def setTimeout_def SETTLE_DELAY_def

lemma effectiveSteps_nonempty: "effectiveSteps arg w \<noteq> []"
  by (simp add: effectiveSteps_def INITIAL_STEPS_def Let_def split: option.splits)

text \<open>A second run of the effect, after the render its own update causes, changes nothing.\<close>

lemma navigation_effect_idem: "navigation_effect (navigation_effect w) = navigation_effect w"
  by (auto simp: navigation_effect_def handleNavigation_def browser_defs split: option.splits)

text \<open>
  After \<^verbatim>\<open>startTour\<close> the effect finds either a paused tour, or a first step that asks
  for no navigation.
\<close>

lemma navigation_effect_startTour: "navigation_effect (startTour arg w) = startTour arg w"
  by (auto simp: navigation_effect_def startTour_def handleNavigation_def browser_defs
      step_at_def Let_def split: option.splits list.splits)

lemma navigation_effect_frame:
  "tourKey (tour (navigation_effect w)) = tourKey (tour w) \<and> now (navigation_effect w) = now w"
  by (simp add: navigation_effect_def handleNavigation_def browser_defs split: option.splits)

text \<open>Every key is a reading of the clock, so it never lies in the future.\<close>

lemma handler_key:
  assumes "tourKey (tour w) \<le> now w"
  shows "tourKey (tour w) \<le> tourKey (tour (handler e w))
       \<and> tourKey (tour (handler e w)) \<le> now (handler e w)"
proof (cases e)
  case (StartTour arg)
  then show ?thesis using assms
    by (auto simp: startTour_def handleNavigation_def browser_defs Let_def
        split: list.splits option.splits)
next
  case (Joyride data)
  then show ?thesis using assms
    by (simp add: handleJoyrideCallback_def browser_defs Let_def)
next
  case TimerFires
  then show ?thesis using assms
    by (simp add: fire_timer_def resume_def setTourState_def split: list.splits)
qed (use assms in \<open>simp_all add: addSteps_def setSteps_def setRun_def elapse_def setTourState_def\<close>)

lemma apply_op_key:
  assumes "tourKey (tour w) \<le> now w"
  shows "tourKey (tour w) \<le> tourKey (tour (apply_op e w))
       \<and> tourKey (tour (apply_op e w)) \<le> now (apply_op e w)"
  using handler_key [OF assms, of e]
  by (simp add: apply_op_def Let_def navigation_effect_frame)

lemma apply_ops_key:
  "tourKey (tour w) \<le> now w \<Longrightarrow>
     tourKey (tour w) \<le> tourKey (tour (apply_ops es w))
   \<and> tourKey (tour (apply_ops es w)) \<le> now (apply_ops es w)"
proof (induction es arbitrary: w)
  case Nil
  then show ?case by simp
next
  case (Cons e es)
  from apply_op_key [OF Cons.prems, of e]
  have a: "tourKey (tour w) \<le> tourKey (tour (apply_op e w))"
    and b: "tourKey (tour (apply_op e w)) \<le> now (apply_op e w)" by simp_all
  from Cons.IH [OF b] a show ?case by simp
qed

lemma assigned_key_is_now:
  "assigns_key e \<Longrightarrow> tourKey (tour (apply_op e w)) = now w"
  by (cases e)
    (auto simp: apply_op_def Let_def navigation_effect_frame startTour_def handleNavigation_def
      addSteps_def setSteps_def browser_defs split: list.splits option.splits)

text \<open>A key that an operation changes is the reading of the clock at that operation.\<close>

lemma handler_key_is_old_or_now:
  "tourKey (tour (handler e w)) = tourKey (tour w) \<or> tourKey (tour (handler e w)) = now w"
proof (cases e)
  case (StartTour arg)
  then show ?thesis
    by (auto simp: startTour_def handleNavigation_def browser_defs Let_def
        split: list.splits option.splits)
next
  case (Joyride data)
  then show ?thesis
    by (simp add: handleJoyrideCallback_def browser_defs Let_def)
next
  case TimerFires
  then show ?thesis
    by (simp add: fire_timer_def resume_def setTourState_def split: list.splits)
qed (simp_all add: addSteps_def setSteps_def setRun_def elapse_def setTourState_def)

lemma apply_op_key_is_old_or_now:
  "tourKey (tour (apply_op e w)) = tourKey (tour w) \<or> tourKey (tour (apply_op e w)) = now w"
  using handler_key_is_old_or_now [of e w]
  by (simp add: apply_op_def Let_def navigation_effect_frame)

text \<open>The clock never runs backwards.\<close>

lemma handler_now: "now w \<le> now (handler e w)"
proof (cases e)
  case (StartTour arg)
  then show ?thesis
    by (auto simp: startTour_def handleNavigation_def browser_defs Let_def
        split: list.splits option.splits)
next
  case (Joyride data)
  then show ?thesis
    by (simp add: handleJoyrideCallback_def browser_defs Let_def)
next
  case TimerFires
  then show ?thesis
    by (simp add: fire_timer_def resume_def setTourState_def split: list.splits)
qed (simp_all add: addSteps_def setSteps_def setRun_def elapse_def setTourState_def)

lemma apply_op_now: "now w \<le> now (apply_op e w)"
  using handler_now [of w e] by (simp add: apply_op_def Let_def navigation_effect_frame)

lemma apply_ops_now: "now w \<le> now (apply_ops es w)"
proof (induction es arbitrary: w)
  case Nil
  show ?case by simp
next
  case (Cons e es)
  from apply_op_now [of w e] Cons.IH [of "apply_op e w"] show ?case by simp
qed

lemma useTour_key: "tourKey (tour (useTour ss p rt t st)) \<le> now (useTour ss p rt t st)"
  by (simp add: useTour_def)

subsection \<open>Evaluating the concrete worlds\<close>

lemma INITIAL_STEPS_length: "length INITIAL_STEPS = 11"
  by (simp add: INITIAL_STEPS_def)

lemma INITIAL_STEPS_navigateTo:
  "map navigateTo INITIAL_STEPS =
     [None, None, None, None, Some ''/'', None, Some ''/profile'', None, Some ''/settings'',
      None, Some ''/'']"
  by (simp add: INITIAL_STEPS_def mk_step_def)

lemma navigateTo_INITIAL_STEPS:
  "i < 11 \<Longrightarrow> navigateTo (INITIAL_STEPS ! i) = map navigateTo INITIAL_STEPS ! i"
  by (simp add: INITIAL_STEPS_length)

lemma startTour_no_navigation:
  assumes "effectiveSteps arg w = s # rest" and "navigateTo s = None"
  shows "startTour arg w =
    w\<lparr>tour := \<lparr>run = True, steps = s # rest, stepIndex = 0, tourKey = now w\<rparr>\<rparr>"
  using assms by (simp add: startTour_def setTourState_def Let_def)

lemma startTour_default_steps:
  assumes "initialSteps w = INITIAL_STEPS"
  shows "startTour None w =
    w\<lparr>tour := \<lparr>run = True, steps = INITIAL_STEPS, stepIndex = 0, tourKey = now w\<rparr>\<rparr>"
proof -
  obtain s rest where sr: "INITIAL_STEPS = s # rest" and n: "navigateTo s = None"
    by (simp add: INITIAL_STEPS_def mk_step_def)
  have "effectiveSteps None w = s # rest"
    using assms sr by (simp add: effectiveSteps_def)
  from startTour_no_navigation [OF this n] sr show ?thesis by simp
qed

lemma dashboard_step3_eval:
  "dashboard_step3 =
     \<lparr>tour = \<lparr>run = True, steps = INITIAL_STEPS, stepIndex = 3, tourKey = 1000\<rparr>,
      initialSteps = INITIAL_STEPS, pathname = ''/'', router = three_page_router, now = 1000,
      localStorage = Map.empty,
      setItem_log = [], navigate_log = [], timers = []\<rparr>"
  by (simp add: dashboard_step3_def dashboard_world_def useTour_def step_after_def apply_op_def
      deps_changed_def navigation_effect_def step_at_def startTour_default_steps
      handleJoyrideCallback_def browser_defs Let_def INITIAL_STEPS_length
      navigateTo_INITIAL_STEPS INITIAL_STEPS_navigateTo)

lemma dashboard_step4_eval:
  "dashboard_step4 =
     \<lparr>tour = \<lparr>run = True, steps = INITIAL_STEPS, stepIndex = 4, tourKey = 1000\<rparr>,
      initialSteps = INITIAL_STEPS, pathname = ''/'', router = three_page_router, now = 1000,
      localStorage = Map.empty,
      setItem_log = [], navigate_log = [], timers = []\<rparr>"
  by (simp add: dashboard_step4_def dashboard_step3_eval step_after_def apply_op_def
      deps_changed_def navigation_effect_def step_at_def handleNavigation_def
      handleJoyrideCallback_def browser_defs Let_def INITIAL_STEPS_length
      navigateTo_INITIAL_STEPS INITIAL_STEPS_navigateTo)

lemma one_step_tour_eval:
  "apply_op (StartTour (Some one_step)) dashboard_world =
     dashboard_world\<lparr>tour := \<lparr>run = True, steps = one_step, stepIndex = 0, tourKey = 1000\<rparr>\<rparr>"
  by (simp add: apply_op_def navigation_effect_startTour Let_def)
     (simp add: startTour_def effectiveSteps_def one_step_def mk_step_def setTourState_def
       dashboard_world_def useTour_def)

lemma profile_step_reached_eval:
  "profile_step_reached =
     \<lparr>tour = \<lparr>run = True, steps = INITIAL_STEPS, stepIndex = 6, tourKey = 1000\<rparr>,
      initialSteps = INITIAL_STEPS, pathname = ''/'', router = three_page_router, now = 1000,
      localStorage = Map.empty,
      setItem_log = [], navigate_log = [], timers = []\<rparr>"
  by (simp add: profile_step_reached_def dashboard_step4_eval step_after_def apply_op_def
      deps_changed_def navigation_effect_def step_at_def handleNavigation_def
      handleJoyrideCallback_def browser_defs Let_def INITIAL_STEPS_length
      navigateTo_INITIAL_STEPS INITIAL_STEPS_navigateTo)

lemma profile_navigating_eval:
  "profile_navigating =
     \<lparr>tour = \<lparr>run = False, steps = INITIAL_STEPS, stepIndex = 6, tourKey = 1000\<rparr>,
      initialSteps = INITIAL_STEPS, pathname = ''/profile'', router = three_page_router,
      now = 1000, localStorage = Map.empty,
      setItem_log = [], navigate_log = [''/profile''], timers = [1500]\<rparr>"
  by (simp add: profile_navigating_def profile_step_reached_eval navigation_effect_def
      step_at_def handleNavigation_def browser_defs INITIAL_STEPS_length
      navigateTo_INITIAL_STEPS INITIAL_STEPS_navigateTo three_page_router_def)

text \<open>
  That world is the one the event loop reaches from the dashboard by starting the default
  tour and pressing Next six times.
\<close>

lemma profile_navigating_reached:
  "profile_navigating =
     apply_ops [StartTour None, Joyride (step_after NEXT 0), Joyride (step_after NEXT 1),
                Joyride (step_after NEXT 2), Joyride (step_after NEXT 3),
                Joyride (step_after NEXT 4), Joyride (step_after NEXT 5)] dashboard_world"
proof -
  let ?w5 = "apply_op (Joyride (step_after NEXT 4)) dashboard_step4"
  have w5: "?w5 =
     \<lparr>tour = \<lparr>run = True, steps = INITIAL_STEPS, stepIndex = 5, tourKey = 1000\<rparr>,
      initialSteps = INITIAL_STEPS, pathname = ''/'', router = three_page_router, now = 1000,
      localStorage = Map.empty, setItem_log = [], navigate_log = [], timers = []\<rparr>"
    by (simp add: dashboard_step4_eval step_after_def apply_op_def
      deps_changed_def navigation_effect_def step_at_def handleNavigation_def
      handleJoyrideCallback_def browser_defs Let_def INITIAL_STEPS_length
      navigateTo_INITIAL_STEPS INITIAL_STEPS_navigateTo)
  have "apply_op (Joyride (step_after NEXT 5)) ?w5
      = navigation_effect (handleJoyrideCallback (step_after NEXT 5) ?w5)"
    unfolding w5
    by (simp add: apply_op_def Let_def deps_changed_def handleJoyrideCallback_def
        step_after_def setTourState_def)
  then show ?thesis
    by (simp add: profile_navigating_def profile_step_reached_def dashboard_step4_def
        dashboard_step3_def)
qed

lemma settings_tour_start:
  "apply_op (StartTour (Some settings_tour)) (apply_op (Elapse 100) profile_navigating) =
     \<lparr>tour = \<lparr>run = False, steps = settings_tour, stepIndex = 0, tourKey = 1100\<rparr>,
      initialSteps = INITIAL_STEPS, pathname = ''/settings'', router = three_page_router,
      now = 1100, localStorage = Map.empty,
      setItem_log = [], navigate_log = [''/profile'', ''/settings''], timers = [1500, 1600]\<rparr>"
proof -
  have "apply_op (Elapse 100) profile_navigating = elapse 100 profile_navigating"
    by (simp add: apply_op_def Let_def deps_changed_def elapse_def)
  then show ?thesis
    by (simp add: apply_op_def Let_def navigation_effect_startTour)
       (simp add: profile_navigating_eval elapse_def startTour_def effectiveSteps_def
         settings_tour_def mk_step_def handleNavigation_def browser_defs
         three_page_router_def)
qed

lemma settings_tour_resumed:
  "apply_ops [Elapse 100, StartTour (Some settings_tour), Elapse 400, TimerFires]
      profile_navigating =
     \<lparr>tour = \<lparr>run = True, steps = settings_tour, stepIndex = 0, tourKey = 1500\<rparr>,
      initialSteps = INITIAL_STEPS, pathname = ''/settings'', router = three_page_router,
      now = 1500, localStorage = Map.empty,
      setItem_log = [], navigate_log = [''/profile'', ''/settings''], timers = [1600]\<rparr>"
proof -
  let ?w = "apply_op (StartTour (Some settings_tour)) (apply_op (Elapse 100) profile_navigating)"
  have len: "length settings_tour = 1"
    and nav: "navigateTo (settings_tour ! 0) = Some ''/settings''"
    by (simp_all add: settings_tour_def mk_step_def)
  have e: "apply_op (Elapse 400) ?w = elapse 400 ?w"
    by (simp add: apply_op_def Let_def deps_changed_def elapse_def)
  have f: "apply_op TimerFires (elapse 400 ?w) =
      navigation_effect (fire_timer (elapse 400 ?w))"
    unfolding settings_tour_start
    by (simp add: apply_op_def Let_def deps_changed_def elapse_def fire_timer_def resume_def
        setTourState_def)
  have g: "navigation_effect (fire_timer (elapse 400 ?w)) = fire_timer (elapse 400 ?w)"
    unfolding settings_tour_start
    by (simp add: elapse_def fire_timer_def resume_def setTourState_def navigation_effect_def
        step_at_def len nav handleNavigation_def)
  have "apply_ops [Elapse 100, StartTour (Some settings_tour), Elapse 400, TimerFires]
      profile_navigating = fire_timer (elapse 400 ?w)"
    by (simp add: e f g)
  also have "\<dots> =
     \<lparr>tour = \<lparr>run = True, steps = settings_tour, stepIndex = 0, tourKey = 1500\<rparr>,
      initialSteps = INITIAL_STEPS, pathname = ''/settings'', router = three_page_router,
      now = 1500, localStorage = Map.empty,
      setItem_log = [], navigate_log = [''/profile'', ''/settings''], timers = [1600]\<rparr>"
    unfolding settings_tour_start
    by (simp add: elapse_def fire_timer_def resume_def setTourState_def)
  finally show ?thesis .
qed

subsection \<open>The step index while the tour runs\<close>

text \<open>
  Claim C1 as stated: in every reachable state with \<^verbatim>\<open>run\<close> set the step index lies in
  \<open>0 \<le> stepIndex < length steps\<close>, and every transition of \<^verbatim>\<open>handleJoyrideCallback\<close> that
  leaves \<^verbatim>\<open>run\<close> set keeps it there, a Back at index 0 and a Next at the last index
  included. The handler does not clamp: started on the dashboard, a Back reported at index 0
  leaves the default tour running at index \<open>-1\<close>, and a Next reported at the last index of
  a tour of one step leaves it running at index 1, the length of the list.
\<close>

theorem callback_leaves_bounds:
  "run (tour (apply_ops [StartTour None, Joyride (step_after PREV 0)] dashboard_world))
   \<and> \<not> in_bounds (tour (apply_ops [StartTour None, Joyride (step_after PREV 0)] dashboard_world))
   \<and> run (tour (apply_ops [StartTour (Some one_step), Joyride (step_after NEXT 0)] dashboard_world))
   \<and> \<not> in_bounds (tour (apply_ops [StartTour (Some one_step), Joyride (step_after NEXT 0)] dashboard_world))"
  by (simp add: one_step_tour_eval)
     (simp add: apply_op_def Let_def dashboard_world_def useTour_def startTour_default_steps
       step_after_def handleJoyrideCallback_def setTourState_def navigation_effect_def
       step_at_def in_bounds_def one_step_def)

text \<open>
  Claim C1, amended: a transition of \<^verbatim>\<open>handleJoyrideCallback\<close> that leaves \<^verbatim>\<open>run\<close> set is
  either no change at all, or an advance that keeps the steps and moves the step index to
  the reported index minus one (Back) or plus one (any other action). When the reported
  index lies within the steps, the new index lies within them exactly when the advance is
  neither a Back at index 0 nor a forward move at the last index.
\<close>

theorem callback_bound:
  "(advances data \<longrightarrow>
      run (tour (handleJoyrideCallback data w))
      \<and> steps (tour (handleJoyrideCallback data w)) = steps (tour w)
      \<and> stepIndex (tour (handleJoyrideCallback data w))
           = index data + (if action data = PREV then - 1 else 1)
      \<and> (0 \<le> index data \<and> index data < int (length (steps (tour w))) \<longrightarrow>
           in_bounds (tour (handleJoyrideCallback data w))
             = (if action data = PREV then index data \<noteq> 0
                else index data \<noteq> int (length (steps (tour w))) - 1)))
   \<and> (\<not> advances data \<longrightarrow>
        \<not> run (tour (handleJoyrideCallback data w)) \<or> handleJoyrideCallback data w = w)"
  by (auto simp: advances_def handleJoyrideCallback_def browser_defs in_bounds_def Let_def)

theorem callback_bound_witness:
  "advances (step_after NEXT 3)
   \<and> 0 \<le> index (step_after NEXT 3)
   \<and> index (step_after NEXT 3) < int (length (steps (tour dashboard_step3)))
   \<and> run (tour (handleJoyrideCallback (step_after NEXT 3) dashboard_step3))
   \<and> stepIndex (tour (handleJoyrideCallback (step_after NEXT 3) dashboard_step3)) = 4
   \<and> in_bounds (tour (handleJoyrideCallback (step_after NEXT 3) dashboard_step3))
   \<and> \<not> advances (step_after CLOSE 3)
   \<and> \<not> run (tour (handleJoyrideCallback (step_after CLOSE 3) dashboard_step3))"
  using callback_bound [of "step_after NEXT 3" dashboard_step3]
    callback_bound [of "step_after CLOSE 3" dashboard_step3]
  by (simp add: advances_def step_after_def dashboard_step3_eval INITIAL_STEPS_length
      handleJoyrideCallback_def browser_defs)

subsection \<open>Finishing, skipping and closing\<close>

text \<open>
  Claim C3: when \<^verbatim>\<open>handleJoyrideCallback\<close> receives the status \<^verbatim>\<open>FINISHED\<close> or \<^verbatim>\<open>SKIPPED\<close>,
  whatever the state, the action, the index and the event type, the resulting state has
  \<^verbatim>\<open>run\<close> cleared and \<^verbatim>\<open>localStorage\<close> holds \<^verbatim>\<open>'true'\<close> under \<^verbatim>\<open>'tourViewed'\<close>.
\<close>

theorem finished_stops_and_persists:
  assumes "status data = FINISHED \<or> status data = SKIPPED"
  shows "run (tour (handleJoyrideCallback data w)) = False
    \<and> localStorage (handleJoyrideCallback data w) ''tourViewed'' = Some ''true''"
  using assms by (auto simp: handleJoyrideCallback_def browser_defs)

theorem finished_stops_and_persists_witness:
  "status ((step_after NEXT 10)\<lparr>status := FINISHED\<rparr>) = FINISHED
   \<and> run (tour (handleJoyrideCallback ((step_after NEXT 10)\<lparr>status := FINISHED\<rparr>)
                 (setRun True dashboard_world))) = False
   \<and> localStorage (handleJoyrideCallback ((step_after NEXT 10)\<lparr>status := FINISHED\<rparr>)
                     (setRun True dashboard_world)) ''tourViewed'' = Some ''true''"
  using finished_stops_and_persists
    [of "(step_after NEXT 10)\<lparr>status := FINISHED\<rparr>" "setRun True dashboard_world"]
  by (simp add: step_after_def)

text \<open>
  Claim C4 as stated: a \<^verbatim>\<open>CLOSE\<close> action delivered to \<^verbatim>\<open>handleJoyrideCallback\<close> clears
  \<^verbatim>\<open>run\<close> and writes the flag once. The handler looks at the action only inside the branch
  for the event types \<^verbatim>\<open>STEP_AFTER\<close> and \<^verbatim>\<open>TARGET_NOT_FOUND\<close>: a \<^verbatim>\<open>CLOSE\<close> action that comes
  with the event type \<^verbatim>\<open>STEP_BEFORE\<close> and the status \<^verbatim>\<open>RUNNING\<close> leaves the tour running
  and writes nothing.
\<close>

theorem close_outside_step_event_ignored:
  "action ((step_after CLOSE 3)\<lparr>type := STEP_BEFORE\<rparr>) = CLOSE
   \<and> run (tour (handleJoyrideCallback ((step_after CLOSE 3)\<lparr>type := STEP_BEFORE\<rparr>)
                 dashboard_step3))
   \<and> setItem_log (handleJoyrideCallback ((step_after CLOSE 3)\<lparr>type := STEP_BEFORE\<rparr>)
                    dashboard_step3) = []
   \<and> localStorage (handleJoyrideCallback ((step_after CLOSE 3)\<lparr>type := STEP_BEFORE\<rparr>)
                     dashboard_step3) ''tourViewed'' = None"
  by (simp add: step_after_def dashboard_step3_eval handleJoyrideCallback_def)

text \<open>
  Claim C4, amended: at every step index and in every state, a \<^verbatim>\<open>CLOSE\<close> action delivered
  with the event type \<^verbatim>\<open>STEP_AFTER\<close> or \<^verbatim>\<open>TARGET_NOT_FOUND\<close> (or with the status
  \<^verbatim>\<open>FINISHED\<close> or \<^verbatim>\<open>SKIPPED\<close>) clears \<^verbatim>\<open>run\<close> and calls \<^verbatim>\<open>localStorage.setItem\<close> exactly
  once, with \<^verbatim>\<open>'tourViewed'\<close> and \<^verbatim>\<open>'true'\<close>; delivered with any other event type it changes
  nothing.
\<close>

theorem close_stops_and_persists_once:
  assumes "action data = CLOSE"
  shows "(type data = STEP_AFTER \<or> type data = TARGET_NOT_FOUND
            \<or> status data = FINISHED \<or> status data = SKIPPED \<longrightarrow>
          run (tour (handleJoyrideCallback data w)) = False
          \<and> setItem_log (handleJoyrideCallback data w)
               = setItem_log w @ [(''tourViewed'', ''true'')]
          \<and> localStorage (handleJoyrideCallback data w)
               = (localStorage w)(''tourViewed'' \<mapsto> ''true''))
       \<and> (\<not> (type data = STEP_AFTER \<or> type data = TARGET_NOT_FOUND
            \<or> status data = FINISHED \<or> status data = SKIPPED) \<longrightarrow>
          handleJoyrideCallback data w = w)"
  using assms by (auto simp: handleJoyrideCallback_def browser_defs Let_def)

theorem close_stops_and_persists_once_witness:
  "action (step_after CLOSE 3) = CLOSE
   \<and> type (step_after CLOSE 3) = STEP_AFTER
   \<and> run (tour (handleJoyrideCallback (step_after CLOSE 3) dashboard_step3)) = False
   \<and> setItem_log (handleJoyrideCallback (step_after CLOSE 3) dashboard_step3)
        = [(''tourViewed'', ''true'')]
   \<and> localStorage (handleJoyrideCallback (step_after CLOSE 3) dashboard_step3) ''tourViewed''
        = Some ''true''
   \<and> action ((step_after CLOSE 3)\<lparr>type := TOOLTIP\<rparr>) = CLOSE
   \<and> handleJoyrideCallback ((step_after CLOSE 3)\<lparr>type := TOOLTIP\<rparr>) dashboard_step3
        = dashboard_step3"
  using close_stops_and_persists_once [of "step_after CLOSE 3" dashboard_step3]
    close_stops_and_persists_once [of "(step_after CLOSE 3)\<lparr>type := TOOLTIP\<rparr>" dashboard_step3]
  by (simp add: step_after_def dashboard_step3_eval)

text \<open>
  Claim C7: in every state and for every callback data, a \<^verbatim>\<open>TARGET_NOT_FOUND\<close> event
  produces the same transition as a \<^verbatim>\<open>STEP_AFTER\<close> event with the same action, index and
  status. When the status is neither \<^verbatim>\<open>FINISHED\<close> nor \<^verbatim>\<open>SKIPPED\<close> and the action is not
  \<^verbatim>\<open>CLOSE\<close>, that transition moves the step index by one from the reported index and sets
  \<^verbatim>\<open>run\<close>; nothing else changes, no timer is scheduled and nothing is recorded as an
  error.
\<close>

theorem target_not_found_like_step_after:
  "handleJoyrideCallback (data\<lparr>type := TARGET_NOT_FOUND\<rparr>) w
     = handleJoyrideCallback (data\<lparr>type := STEP_AFTER\<rparr>) w
   \<and> (status data \<noteq> FINISHED \<and> status data \<noteq> SKIPPED \<and> action data \<noteq> CLOSE \<longrightarrow>
        handleJoyrideCallback (data\<lparr>type := TARGET_NOT_FOUND\<rparr>) w
          = w\<lparr>tour := (tour w)\<lparr>stepIndex := index data + (if action data = PREV then - 1 else 1),
                                run := True\<rparr>\<rparr>)"
  by (simp add: handleJoyrideCallback_def browser_defs Let_def)

theorem target_not_found_like_step_after_witness:
  "status (step_after NEXT 3) \<noteq> FINISHED \<and> status (step_after NEXT 3) \<noteq> SKIPPED
   \<and> action (step_after NEXT 3) \<noteq> CLOSE
   \<and> handleJoyrideCallback ((step_after NEXT 3)\<lparr>type := TARGET_NOT_FOUND\<rparr>) dashboard_step3
       = handleJoyrideCallback ((step_after NEXT 3)\<lparr>type := STEP_AFTER\<rparr>) dashboard_step3
   \<and> tour (handleJoyrideCallback ((step_after NEXT 3)\<lparr>type := TARGET_NOT_FOUND\<rparr>) dashboard_step3)
       = \<lparr>run = True, steps = INITIAL_STEPS, stepIndex = 4, tourKey = 1000\<rparr>
   \<and> timers (handleJoyrideCallback ((step_after NEXT 3)\<lparr>type := TARGET_NOT_FOUND\<rparr>) dashboard_step3) = []"
  using target_not_found_like_step_after [of "step_after NEXT 3" dashboard_step3]
  by (simp add: step_after_def dashboard_step3_eval handleJoyrideCallback_def setTourState_def)

subsection \<open>Navigation and the render key\<close>

text \<open>
  Claim C10: when \<^verbatim>\<open>window.location.pathname\<close> already equals the path,
  \<^verbatim>\<open>handleNavigation\<close> returns the world as it is: the tour is not paused, \<^verbatim>\<open>navigate\<close> is
  not called, no timer is scheduled and \<^verbatim>\<open>tourKey\<close> is kept. So the navigation effect,
  run on a step whose \<^verbatim>\<open>navigateTo\<close> is the current page, changes nothing either.
\<close>

theorem handleNavigation_same_page:
  assumes "pathname w = p"
  shows "handleNavigation p w = w
    \<and> (\<forall>s. step_at (steps (tour w)) (stepIndex (tour w)) = Some s \<and> navigateTo s = Some p
          \<longrightarrow> navigation_effect w = w)"
  using assms by (auto simp: handleNavigation_def navigation_effect_def)

theorem handleNavigation_same_page_witness:
  "pathname dashboard_step4 = ''/''
   \<and> handleNavigation ''/'' dashboard_step4 = dashboard_step4
   \<and> run (tour dashboard_step4)
   \<and> step_at (steps (tour dashboard_step4)) (stepIndex (tour dashboard_step4))
       = Some (INITIAL_STEPS ! 4)
   \<and> navigateTo (INITIAL_STEPS ! 4) = Some ''/''
   \<and> navigation_effect dashboard_step4 = dashboard_step4"
proof -
  have p: "pathname dashboard_step4 = ''/''"
    by (simp add: dashboard_step4_eval)
  have s: "step_at (steps (tour dashboard_step4)) (stepIndex (tour dashboard_step4))
       = Some (INITIAL_STEPS ! 4)"
    by (simp add: dashboard_step4_eval step_at_def INITIAL_STEPS_length)
  have n: "navigateTo (INITIAL_STEPS ! 4) = Some ''/''"
    by (simp add: navigateTo_INITIAL_STEPS INITIAL_STEPS_navigateTo)
  have r: "run (tour dashboard_step4)"
    by (simp add: dashboard_step4_eval)
  from handleNavigation_same_page [OF p] p s n r show ?thesis by blast
qed

text \<open>
  Claim C2 as stated: reaching a step that carries \<^verbatim>\<open>navigateTo\<close> while the tour runs
  always pauses, navigates, waits and sets a fresh \<^verbatim>\<open>tourKey\<close>. The default tour started
  on the dashboard reaches index 4, whose \<^verbatim>\<open>navigateTo\<close> is \<^verbatim>\<open>/\<close>, with Next: the tour stays
  running, \<^verbatim>\<open>navigate\<close> is not called, no timer is pending, and the key is still the one
  from before, also half a second later when a timer would have fired.
\<close>

theorem same_page_step_keeps_key:
  "run (tour dashboard_step3)
   \<and> step_at (steps (tour dashboard_step3)) 4 = Some (INITIAL_STEPS ! 4)
   \<and> navigateTo (INITIAL_STEPS ! 4) = Some ''/''
   \<and> run (tour dashboard_step4) \<and> stepIndex (tour dashboard_step4) = 4
   \<and> timers dashboard_step4 = [] \<and> navigate_log dashboard_step4 = []
   \<and> tourKey (tour dashboard_step4) = tourKey (tour dashboard_step3)
   \<and> tourKey (tour (apply_ops [Elapse 500, TimerFires] dashboard_step4))
        = tourKey (tour dashboard_step3)"
  by (simp add: dashboard_step4_eval dashboard_step3_eval step_at_def INITIAL_STEPS_length
      navigateTo_INITIAL_STEPS INITIAL_STEPS_navigateTo apply_op_def Let_def elapse_def
      fire_timer_def deps_changed_def)

text \<open>
  Claim C2, amended: let the tour run and its current step carry a non-empty \<^verbatim>\<open>navigateTo\<close>
  path. When the path differs from the current location, the navigation effect clears
  \<^verbatim>\<open>run\<close>, calls \<^verbatim>\<open>navigate\<close> with the path (the location becomes what the router makes of
  it) and schedules the resume 500 ms later, changing nothing else. With no resume of an
  earlier navigation pending, no timer fires before the 500 ms have passed; when it fires
  after \<open>d \<ge> 500\<close> ms it sets \<^verbatim>\<open>run\<close> and makes \<^verbatim>\<open>tourKey\<close> the clock reading of that
  moment, which is greater than the old key (a key never lies in the future). When the
  location already equals the path, the effect changes nothing: no pause, no navigation,
  no timer, and the key is kept.
\<close>

theorem navigation_step_regenerates_key:
  assumes "run (tour w)"
    and "step_at (steps (tour w)) (stepIndex (tour w)) = Some s"
    and "navigateTo s = Some p" and "p \<noteq> []"
  shows "(pathname w \<noteq> p \<longrightarrow>
            navigation_effect w =
              w\<lparr>tour := (tour w)\<lparr>run := False\<rparr>, pathname := router w (pathname w) p,
                navigate_log := navigate_log w @ [p], timers := timers w @ [now w + 500]\<rparr>
          \<and> (timers w = [] \<longrightarrow>
               (\<forall>d. d < 500 \<longrightarrow>
                  fire_timer (elapse d (navigation_effect w)) = elapse d (navigation_effect w))
             \<and> (\<forall>d. 500 \<le> d \<longrightarrow>
                  tour (fire_timer (elapse d (navigation_effect w)))
                    = (tour w)\<lparr>run := True, tourKey := now w + int d\<rparr>
                  \<and> timers (fire_timer (elapse d (navigation_effect w))) = []
                  \<and> (tourKey (tour w) \<le> now w \<longrightarrow>
                       tourKey (tour w)
                         < tourKey (tour (fire_timer (elapse d (navigation_effect w))))))))
       \<and> (pathname w = p \<longrightarrow> navigation_effect w = w)"
proof (cases "pathname w = p")
  case True
  with assms show ?thesis
    by (simp add: navigation_effect_def handleNavigation_def)
next
  case False
  with assms have eff: "navigation_effect w =
      w\<lparr>tour := (tour w)\<lparr>run := False\<rparr>, pathname := router w (pathname w) p,
        navigate_log := navigate_log w @ [p], timers := timers w @ [now w + 500]\<rparr>"
    by (simp add: navigation_effect_def handleNavigation_def browser_defs)
  have "timers w = [] \<longrightarrow>
          (\<forall>d. d < 500 \<longrightarrow>
             fire_timer (elapse d (navigation_effect w)) = elapse d (navigation_effect w))
        \<and> (\<forall>d. 500 \<le> d \<longrightarrow>
             tour (fire_timer (elapse d (navigation_effect w)))
               = (tour w)\<lparr>run := True, tourKey := now w + int d\<rparr>
             \<and> timers (fire_timer (elapse d (navigation_effect w))) = []
             \<and> (tourKey (tour w) \<le> now w \<longrightarrow>
                  tourKey (tour w)
                    < tourKey (tour (fire_timer (elapse d (navigation_effect w))))))"
    unfolding eff by (simp add: fire_timer_def elapse_def resume_def setTourState_def)
  with eff False show ?thesis by blast
qed

theorem navigation_step_regenerates_key_witness:
  "run (tour profile_step_reached)
   \<and> step_at (steps (tour profile_step_reached)) (stepIndex (tour profile_step_reached))
       = Some (INITIAL_STEPS ! 6)
   \<and> navigateTo (INITIAL_STEPS ! 6) = Some ''/profile''
   \<and> ''/profile'' \<noteq> []
   \<and> pathname profile_step_reached \<noteq> ''/profile''
   \<and> timers profile_step_reached = []
   \<and> tourKey (tour profile_step_reached) \<le> now profile_step_reached
   \<and> run (tour (navigation_effect profile_step_reached)) = False
   \<and> pathname (navigation_effect profile_step_reached) = ''/profile''
   \<and> navigate_log (navigation_effect profile_step_reached) = [''/profile'']
   \<and> timers (navigation_effect profile_step_reached) = [1500]
   \<and> fire_timer (elapse 499 (navigation_effect profile_step_reached))
       = elapse 499 (navigation_effect profile_step_reached)
   \<and> tour (fire_timer (elapse 500 (navigation_effect profile_step_reached)))
       = \<lparr>run = True, steps = INITIAL_STEPS, stepIndex = 6, tourKey = 1500\<rparr>
   \<and> tourKey (tour profile_step_reached)
       < tourKey (tour (fire_timer (elapse 500 (navigation_effect profile_step_reached))))
   \<and> run (tour dashboard_step4)
   \<and> step_at (steps (tour dashboard_step4)) (stepIndex (tour dashboard_step4))
       = Some (INITIAL_STEPS ! 4)
   \<and> navigateTo (INITIAL_STEPS ! 4) = Some ''/''
   \<and> ''/'' \<noteq> []
   \<and> pathname dashboard_step4 = ''/''
   \<and> navigation_effect dashboard_step4 = dashboard_step4"
proof -
  have r: "run (tour profile_step_reached)"
    by (simp add: profile_step_reached_eval)
  have s: "step_at (steps (tour profile_step_reached)) (stepIndex (tour profile_step_reached))
       = Some (INITIAL_STEPS ! 6)"
    by (simp add: profile_step_reached_eval step_at_def INITIAL_STEPS_length)
  have n: "navigateTo (INITIAL_STEPS ! 6) = Some ''/profile''"
    by (simp add: navigateTo_INITIAL_STEPS INITIAL_STEPS_navigateTo)
  have e: "''/profile'' \<noteq> []" by simp
  have p: "pathname profile_step_reached \<noteq> ''/profile''"
    by (simp add: profile_step_reached_eval)
  have t: "timers profile_step_reached = []"
    and k: "tourKey (tour profile_step_reached) \<le> now profile_step_reached"
    by (simp_all add: profile_step_reached_eval)
  note main = navigation_step_regenerates_key [OF r s n e]
  from main p have eff: "navigation_effect profile_step_reached =
      profile_step_reached\<lparr>tour := (tour profile_step_reached)\<lparr>run := False\<rparr>,
        pathname := router profile_step_reached (pathname profile_step_reached) ''/profile'',
        navigate_log := navigate_log profile_step_reached @ [''/profile''],
        timers := timers profile_step_reached @ [now profile_step_reached + 500]\<rparr>"
    by blast
  from main p t have timing:
    "(\<forall>d. d < 500 \<longrightarrow>
        fire_timer (elapse d (navigation_effect profile_step_reached))
          = elapse d (navigation_effect profile_step_reached))
     \<and> (\<forall>d. 500 \<le> d \<longrightarrow>
          tour (fire_timer (elapse d (navigation_effect profile_step_reached)))
            = (tour profile_step_reached)\<lparr>run := True, tourKey := now profile_step_reached + int d\<rparr>
          \<and> timers (fire_timer (elapse d (navigation_effect profile_step_reached))) = []
          \<and> (tourKey (tour profile_step_reached) \<le> now profile_step_reached \<longrightarrow>
               tourKey (tour profile_step_reached)
                 < tourKey (tour (fire_timer (elapse d (navigation_effect profile_step_reached))))))"
    by blast
  from timing have early:
    "fire_timer (elapse 499 (navigation_effect profile_step_reached))
       = elapse 499 (navigation_effect profile_step_reached)"
    by simp
  from timing k have late:
    "tour (fire_timer (elapse 500 (navigation_effect profile_step_reached)))
       = (tour profile_step_reached)\<lparr>run := True, tourKey := now profile_step_reached + int 500\<rparr>"
    "tourKey (tour profile_step_reached)
       < tourKey (tour (fire_timer (elapse 500 (navigation_effect profile_step_reached))))"
    by simp_all
  have paused: "run (tour (navigation_effect profile_step_reached)) = False"
    "pathname (navigation_effect profile_step_reached) = ''/profile''"
    "navigate_log (navigation_effect profile_step_reached) = [''/profile'']"
    "timers (navigation_effect profile_step_reached) = [1500]"
    unfolding eff by (simp_all add: profile_step_reached_eval three_page_router_def)
  have resumed: "tour (fire_timer (elapse 500 (navigation_effect profile_step_reached)))
       = \<lparr>run = True, steps = INITIAL_STEPS, stepIndex = 6, tourKey = 1500\<rparr>"
    unfolding late(1) by (simp add: profile_step_reached_eval)
  have r4: "run (tour dashboard_step4)"
    and p4: "pathname dashboard_step4 = ''/''"
    by (simp_all add: dashboard_step4_eval)
  have s4: "step_at (steps (tour dashboard_step4)) (stepIndex (tour dashboard_step4))
       = Some (INITIAL_STEPS ! 4)"
    by (simp add: dashboard_step4_eval step_at_def INITIAL_STEPS_length)
  have n4: "navigateTo (INITIAL_STEPS ! 4) = Some ''/''"
    by (simp add: navigateTo_INITIAL_STEPS INITIAL_STEPS_navigateTo)
  have e4: "''/'' \<noteq> []" by simp
  from navigation_step_regenerates_key [OF r4 s4 n4 e4] p4
  have same: "navigation_effect dashboard_step4 = dashboard_step4" by blast
  from r s n e p t k paused early resumed late(2) r4 s4 n4 e4 p4 same
  show ?thesis by blast
qed

subsection \<open>Starting the tour\<close>

text \<open>
  Claim C5 as stated: for every call of \<^verbatim>\<open>startTour\<close> whose first step asks for a
  navigation, \<^verbatim>\<open>run\<close> becomes true only after the settle delay. The hook never cancels a
  timer. While the default tour waits for its resume on the profile page (due at
  millisecond 1500), \<^verbatim>\<open>startTour\<close> is called at millisecond 1100 with a tour whose first
  step lives on the settings page: it returns with \<^verbatim>\<open>run\<close> cleared and its own resume due
  at 1600, and the older timer sets \<^verbatim>\<open>run\<close> at 1500, 400 ms after the call, while the
  timer of the call is still pending.
\<close>

theorem stale_timer_activates_early:
  "now (apply_ops [Elapse 100, StartTour (Some settings_tour)] profile_navigating) = 1100
   \<and> run (tour (apply_ops [Elapse 100, StartTour (Some settings_tour)] profile_navigating))
        = False
   \<and> pathname (apply_ops [Elapse 100, StartTour (Some settings_tour)] profile_navigating)
        = ''/settings''
   \<and> timers (apply_ops [Elapse 100, StartTour (Some settings_tour)] profile_navigating)
        = [1500, 1600]
   \<and> now (apply_ops [Elapse 100, StartTour (Some settings_tour), Elapse 400, TimerFires]
             profile_navigating) = 1500
   \<and> run (tour (apply_ops [Elapse 100, StartTour (Some settings_tour), Elapse 400, TimerFires]
                   profile_navigating)) = True
   \<and> timers (apply_ops [Elapse 100, StartTour (Some settings_tour), Elapse 400, TimerFires]
                profile_navigating) = [1600]"
proof -
  have "apply_ops [Elapse 100, StartTour (Some settings_tour)] profile_navigating
      = apply_op (StartTour (Some settings_tour)) (apply_op (Elapse 100) profile_navigating)"
    by simp
  then show ?thesis
    unfolding settings_tour_resumed by (simp add: settings_tour_start)
qed

text \<open>
  Claim C5, amended: \<^verbatim>\<open>startTour\<close> sets the step index to 0 and the steps to the list it
  was given, to the hook's \<^verbatim>\<open>initialSteps\<close> when it was given none, and to \<^verbatim>\<open>INITIAL_STEPS\<close>
  when that choice is empty. When the first of these steps carries a non-empty
  \<^verbatim>\<open>navigateTo\<close> path that differs from the current location, \<^verbatim>\<open>startTour\<close> calls
  \<^verbatim>\<open>navigate\<close> with it (the location becomes what the router makes of the path) and returns
  with \<^verbatim>\<open>run\<close> cleared and the resume scheduled 500 ms later. Provided no older resume is
  pending, \<^verbatim>\<open>run\<close> stays cleared for any \<open>d < 500\<close> ms and is set once the timer fires
  after \<open>d \<ge> 500\<close> ms; an older pending resume sets \<^verbatim>\<open>run\<close> as soon as it has come due.
  Otherwise \<^verbatim>\<open>startTour\<close> returns with \<^verbatim>\<open>run\<close> set and nothing else touched. The
  navigation effect that React runs after the call changes nothing.
\<close>

theorem startTour_resets_then_activates:
  "steps (tour (startTour arg w)) = effectiveSteps arg w
   \<and> stepIndex (tour (startTour arg w)) = 0
   \<and> effectiveSteps arg w =
       (case arg of
          Some ss \<Rightarrow> if ss = [] then INITIAL_STEPS else ss
        | None \<Rightarrow> if initialSteps w = [] then INITIAL_STEPS else initialSteps w)
   \<and> apply_op (StartTour arg) w = startTour arg w
   \<and> (\<forall>s rest p.
         effectiveSteps arg w = s # rest \<and> navigateTo s = Some p \<and> p \<noteq> [] \<and> pathname w \<noteq> p \<longrightarrow>
           startTour arg w =
             w\<lparr>tour := \<lparr>run = False, steps = s # rest, stepIndex = 0, tourKey = now w\<rparr>,
               pathname := router w (pathname w) p, navigate_log := navigate_log w @ [p],
               timers := timers w @ [now w + 500]\<rparr>
           \<and> (timers w = [] \<longrightarrow>
                (\<forall>d. d < 500 \<longrightarrow> run (tour (fire_timer (elapse d (startTour arg w)))) = False)
              \<and> (\<forall>d. 500 \<le> d \<longrightarrow> run (tour (fire_timer (elapse d (startTour arg w)))) = True))
           \<and> (\<forall>due older d.
                timers w = due # older \<and> due \<le> now w + int d \<longrightarrow>
                  run (tour (fire_timer (elapse d (startTour arg w)))) = True))
   \<and> (\<forall>s rest.
         effectiveSteps arg w = s # rest
         \<and> \<not> (\<exists>p. navigateTo s = Some p \<and> p \<noteq> [] \<and> pathname w \<noteq> p) \<longrightarrow>
           startTour arg w =
             w\<lparr>tour := \<lparr>run = True, steps = s # rest, stepIndex = 0, tourKey = now w\<rparr>\<rparr>)"
proof -
  have a: "steps (tour (startTour arg w)) = effectiveSteps arg w
      \<and> stepIndex (tour (startTour arg w)) = 0"
    by (simp add: startTour_def handleNavigation_def browser_defs Let_def
        split: list.splits option.splits)
  have b: "effectiveSteps arg w =
       (case arg of
          Some ss \<Rightarrow> if ss = [] then INITIAL_STEPS else ss
        | None \<Rightarrow> if initialSteps w = [] then INITIAL_STEPS else initialSteps w)"
    by (simp add: effectiveSteps_def split: option.splits)
  have c: "apply_op (StartTour arg) w = startTour arg w"
    by (simp add: apply_op_def Let_def navigation_effect_startTour)
  have d: "startTour arg w =
             w\<lparr>tour := \<lparr>run = False, steps = s # rest, stepIndex = 0, tourKey = now w\<rparr>,
               pathname := router w (pathname w) p, navigate_log := navigate_log w @ [p],
               timers := timers w @ [now w + 500]\<rparr>
           \<and> (timers w = [] \<longrightarrow>
                (\<forall>d. d < 500 \<longrightarrow> run (tour (fire_timer (elapse d (startTour arg w)))) = False)
              \<and> (\<forall>d. 500 \<le> d \<longrightarrow> run (tour (fire_timer (elapse d (startTour arg w)))) = True))
           \<and> (\<forall>due older d.
                timers w = due # older \<and> due \<le> now w + int d \<longrightarrow>
                  run (tour (fire_timer (elapse d (startTour arg w)))) = True)"
    if "effectiveSteps arg w = s # rest" "navigateTo s = Some p" "p \<noteq> []" "pathname w \<noteq> p"
    for s rest p
  proof -
    have eq: "startTour arg w =
             w\<lparr>tour := \<lparr>run = False, steps = s # rest, stepIndex = 0, tourKey = now w\<rparr>,
               pathname := router w (pathname w) p, navigate_log := navigate_log w @ [p],
               timers := timers w @ [now w + 500]\<rparr>"
      using that by (simp add: startTour_def handleNavigation_def browser_defs Let_def)
    show ?thesis
      unfolding eq by (auto simp: fire_timer_def elapse_def resume_def setTourState_def)
  qed
  have e: "startTour arg w =
             w\<lparr>tour := \<lparr>run = True, steps = s # rest, stepIndex = 0, tourKey = now w\<rparr>\<rparr>"
    if "effectiveSteps arg w = s # rest"
      "\<not> (\<exists>p. navigateTo s = Some p \<and> p \<noteq> [] \<and> pathname w \<noteq> p)"
    for s rest
    using that by (auto simp: startTour_def setTourState_def Let_def split: option.splits)
  from a b c d e show ?thesis by blast
qed

theorem startTour_resets_then_activates_witness:
  "effectiveSteps (Some profile_tour) dashboard_world = hd profile_tour # []
   \<and> navigateTo (hd profile_tour) = Some ''/profile''
   \<and> ''/profile'' \<noteq> []
   \<and> pathname dashboard_world \<noteq> ''/profile''
   \<and> timers dashboard_world = []
   \<and> steps (tour (startTour (Some profile_tour) dashboard_world)) = profile_tour
   \<and> stepIndex (tour (startTour (Some profile_tour) dashboard_world)) = 0
   \<and> run (tour (startTour (Some profile_tour) dashboard_world)) = False
   \<and> pathname (startTour (Some profile_tour) dashboard_world) = ''/profile''
   \<and> timers (startTour (Some profile_tour) dashboard_world) = [1500]
   \<and> run (tour (fire_timer (elapse 499 (startTour (Some profile_tour) dashboard_world)))) = False
   \<and> run (tour (fire_timer (elapse 500 (startTour (Some profile_tour) dashboard_world)))) = True
   \<and> effectiveSteps (Some settings_tour) (elapse 100 profile_navigating)
       = hd settings_tour # []
   \<and> navigateTo (hd settings_tour) = Some ''/settings''
   \<and> ''/settings'' \<noteq> []
   \<and> pathname (elapse 100 profile_navigating) \<noteq> ''/settings''
   \<and> timers (elapse 100 profile_navigating) = 1500 # []
   \<and> (1500 :: int) \<le> now (elapse 100 profile_navigating) + int 400
   \<and> run (tour (fire_timer (elapse 400
         (startTour (Some settings_tour) (elapse 100 profile_navigating))))) = True
   \<and> effectiveSteps None dashboard_world = hd INITIAL_STEPS # tl INITIAL_STEPS
   \<and> \<not> (\<exists>p. navigateTo (hd INITIAL_STEPS) = Some p \<and> p \<noteq> [] \<and> pathname dashboard_world \<noteq> p)
   \<and> run (tour (startTour None dashboard_world)) = True
   \<and> steps (tour (startTour None dashboard_world)) = INITIAL_STEPS"
proof -
  let ?w = dashboard_world
  let ?v = "elapse 100 profile_navigating"
  have h1: "effectiveSteps (Some profile_tour) ?w = hd profile_tour # []"
    by (simp add: effectiveSteps_def profile_tour_def)
  have h2: "navigateTo (hd profile_tour) = Some ''/profile''"
    by (simp add: profile_tour_def mk_step_def)
  have h3: "''/profile'' \<noteq> []" by simp
  have h4: "pathname ?w \<noteq> ''/profile''" and h5: "timers ?w = []"
    by (simp_all add: dashboard_world_def useTour_def)
  have k1: "effectiveSteps (Some settings_tour) ?v = hd settings_tour # []"
    by (simp add: effectiveSteps_def settings_tour_def)
  have k2: "navigateTo (hd settings_tour) = Some ''/settings''"
    by (simp add: settings_tour_def mk_step_def)
  have k3: "''/settings'' \<noteq> []" by simp
  have k4: "pathname ?v \<noteq> ''/settings''" and k5: "timers ?v = 1500 # []"
    and k6: "(1500 :: int) \<le> now ?v + int 400"
    by (simp_all add: profile_navigating_eval elapse_def)
  have g1: "effectiveSteps None ?w = hd INITIAL_STEPS # tl INITIAL_STEPS"
    by (simp add: effectiveSteps_def dashboard_world_def useTour_def)
       (simp add: INITIAL_STEPS_def)
  have g2: "\<not> (\<exists>p. navigateTo (hd INITIAL_STEPS) = Some p \<and> p \<noteq> [] \<and> pathname ?w \<noteq> p)"
    by (simp add: INITIAL_STEPS_def mk_step_def)
  note nav = startTour_resets_then_activates [of "Some profile_tour" ?w]
  note stale = startTour_resets_then_activates [of "Some settings_tour" ?v]
  note imm = startTour_resets_then_activates [of None ?w]
  from nav h1 have s: "steps (tour (startTour (Some profile_tour) ?w)) = profile_tour"
    "stepIndex (tour (startTour (Some profile_tour) ?w)) = 0"
    by (simp_all add: profile_tour_def)
  from nav h1 h2 h3 h4 have eq: "startTour (Some profile_tour) ?w =
      ?w\<lparr>tour := \<lparr>run = False, steps = hd profile_tour # [], stepIndex = 0, tourKey = now ?w\<rparr>,
        pathname := router ?w (pathname ?w) ''/profile'',
        navigate_log := navigate_log ?w @ [''/profile''],
        timers := timers ?w @ [now ?w + 500]\<rparr>"
    by blast
  from nav h1 h2 h3 h4 h5 have timing:
    "(\<forall>d. d < 500 \<longrightarrow> run (tour (fire_timer (elapse d (startTour (Some profile_tour) ?w)))) = False)
     \<and> (\<forall>d. 500 \<le> d \<longrightarrow> run (tour (fire_timer (elapse d (startTour (Some profile_tour) ?w)))) = True)"
    by blast
  from timing have t1: "run (tour (fire_timer (elapse 499 (startTour (Some profile_tour) ?w)))) = False"
    and t2: "run (tour (fire_timer (elapse 500 (startTour (Some profile_tour) ?w)))) = True"
    by simp_all
  have r: "run (tour (startTour (Some profile_tour) ?w)) = False"
    "pathname (startTour (Some profile_tour) ?w) = ''/profile''"
    "timers (startTour (Some profile_tour) ?w) = [1500]"
    unfolding eq by (simp_all add: dashboard_world_def useTour_def three_page_router_def)
  from stale k1 k2 k3 k4 have
    "\<forall>due older d. timers ?v = due # older \<and> due \<le> now ?v + int d \<longrightarrow>
       run (tour (fire_timer (elapse d (startTour (Some settings_tour) ?v)))) = True"
    by blast
  with k5 k6 have st: "run (tour (fire_timer (elapse 400 (startTour (Some settings_tour) ?v)))) = True"
    by blast
  from imm g1 g2 have eq2: "startTour None ?w =
      ?w\<lparr>tour := \<lparr>run = True, steps = hd INITIAL_STEPS # tl INITIAL_STEPS, stepIndex = 0,
                   tourKey = now ?w\<rparr>\<rparr>"
    by blast
  have i: "run (tour (startTour None ?w)) = True"
    "steps (tour (startTour None ?w)) = INITIAL_STEPS"
    unfolding eq2 using g1 by (simp_all add: effectiveSteps_def dashboard_world_def useTour_def)
  from h1 h2 h3 h4 h5 s r t1 t2 k1 k2 k3 k4 k5 k6 st g1 g2 i show ?thesis by blast
qed

text \<open>
  Claim C6: \<^verbatim>\<open>startTour([])\<close> yields a running tour at index 0 whose steps are
  \<^verbatim>\<open>INITIAL_STEPS\<close>, in every world, whatever the hook's own \<^verbatim>\<open>initialSteps\<close> are, and the
  navigation effect that follows leaves it so.
\<close>

theorem startTour_empty_override:
  "steps (tour (startTour (Some []) w)) = INITIAL_STEPS
   \<and> run (tour (startTour (Some []) w)) = True
   \<and> stepIndex (tour (startTour (Some []) w)) = 0
   \<and> apply_op (StartTour (Some [])) w = startTour (Some []) w"
  by (simp add: apply_op_def navigation_effect_startTour Let_def)
     (simp add: startTour_def effectiveSteps_def INITIAL_STEPS_def mk_step_def setTourState_def)

subsection \<open>Adding steps\<close>

text \<open>
  Claim C8: \<^verbatim>\<open>addSteps(extra)\<close> yields the old steps with \<open>extra\<close> appended at the end;
  \<^verbatim>\<open>run\<close> and \<^verbatim>\<open>stepIndex\<close> are as before, and nothing outside the tour state changes.
\<close>

theorem addSteps_appends:
  "steps (tour (addSteps extra w)) = steps (tour w) @ extra
   \<and> run (tour (addSteps extra w)) = run (tour w)
   \<and> stepIndex (tour (addSteps extra w)) = stepIndex (tour w)
   \<and> addSteps extra w = w\<lparr>tour := tour (addSteps extra w)\<rparr>"
  by (simp add: addSteps_def setTourState_def)

subsection \<open>The render key over time\<close>

text \<open>
  Claim C9 as stated: every newly assigned \<^verbatim>\<open>tourKey\<close> is strictly greater than every
  earlier one. The key is \<^verbatim>\<open>Date.now()\<close>: two calls of \<^verbatim>\<open>addSteps\<close> within the same
  millisecond assign the same key.
\<close>

theorem tourKey_repeats_within_a_millisecond:
  "\<not> tourKey (tour (apply_ops [AddSteps []] dashboard_world))
      < tourKey (tour (apply_ops [AddSteps [], AddSteps []] dashboard_world))"
  by (simp add: dashboard_world_def useTour_def apply_op_def addSteps_def setTourState_def
      navigation_effect_def Let_def)

text \<open>
  Claim C9, amended: with a clock that never runs backwards, along every sequence of
  operations from the mount of the hook the key after a later operation is greater than or
  equal to the key after every earlier one. Once at least one millisecond has passed, an
  operation that assigns the key (\<^verbatim>\<open>startTour\<close>, \<^verbatim>\<open>addSteps\<close>, \<^verbatim>\<open>setSteps\<close>) or changes it
  (the resume of \<^verbatim>\<open>handleNavigation\<close>) leaves a key strictly greater than the earlier one.
\<close>

theorem tourKey_never_decreases:
  "tourKey (tour (apply_ops earlier (useTour ss p rt t st)))
     \<le> tourKey (tour (apply_ops later (apply_ops earlier (useTour ss p rt t st))))
   \<and> (assigns_key e
        \<or> tourKey (tour (apply_op e (apply_ops later (apply_op (Elapse (Suc d))
               (apply_ops earlier (useTour ss p rt t st))))))
           \<noteq> tourKey (tour (apply_ops later (apply_op (Elapse (Suc d))
               (apply_ops earlier (useTour ss p rt t st)))))
      \<longrightarrow>
        tourKey (tour (apply_ops earlier (useTour ss p rt t st)))
          < tourKey (tour (apply_op e (apply_ops later (apply_op (Elapse (Suc d))
               (apply_ops earlier (useTour ss p rt t st)))))))"
proof -
  let ?w = "apply_ops earlier (useTour ss p rt t st)"
  let ?w' = "apply_ops later (apply_op (Elapse (Suc d)) ?w)"
  have inv: "tourKey (tour ?w) \<le> now ?w"
    using apply_ops_key [OF useTour_key, where es = earlier] by simp
  have mono: "tourKey (tour ?w) \<le> tourKey (tour (apply_ops later ?w))"
    using apply_ops_key [OF inv, where es = later] by simp
  have "now (apply_op (Elapse (Suc d)) ?w) = now ?w + int (Suc d)"
    by (simp add: apply_op_def Let_def navigation_effect_frame elapse_def)
  with apply_ops_now [of "apply_op (Elapse (Suc d)) ?w" later] inv
  have later_now: "tourKey (tour ?w) < now ?w'" by simp
  have strict: "tourKey (tour ?w) < tourKey (tour (apply_op e ?w'))"
    if "assigns_key e \<or> tourKey (tour (apply_op e ?w')) \<noteq> tourKey (tour ?w')"
  proof -
    from that assigned_key_is_now [of e ?w'] apply_op_key_is_old_or_now [of e ?w']
    have "tourKey (tour (apply_op e ?w')) = now ?w'" by blast
    with later_now show ?thesis by simp
  qed
  from mono strict show ?thesis by blast
qed

theorem tourKey_never_decreases_witness:
  "tourKey (tour (apply_ops [StartTour None] dashboard_world))
     \<le> tourKey (tour (apply_ops [SetRun False] (apply_ops [StartTour None] dashboard_world)))
   \<and> assigns_key (AddSteps [])
   \<and> tourKey (tour (apply_ops [StartTour None] dashboard_world))
       < tourKey (tour (apply_op (AddSteps [])
           (apply_ops [SetRun False] (apply_op (Elapse (Suc 4))
              (apply_ops [StartTour None] dashboard_world)))))"
  using tourKey_never_decreases [where earlier = "[StartTour None]" and ss = INITIAL_STEPS
      and p = "''/''" and rt = three_page_router and t = 1000 and st = Map.empty and later = "[SetRun False]"
      and e = "AddSteps []" and d = 4]
  by (simp add: dashboard_world_def)

end
